theory Spec2Isabelle
  imports Main "HOL-Library.Sublist"
begin

section \<open>JavaScript strings\<close>

text \<open>
  A JavaScript string is a sequence of UTF-16 code units. It is modelled as a \<^typ>\<open>string\<close>
  whose characters are the code units below 256 (ASCII and Latin-1); the queries, the log
  fields and the messages of the two tools are read in that range. The string methods the
  tools call are written out below as ECMAScript defines them on that range.
\<close>

text \<open>\<^verbatim>\<open>String.prototype.toLowerCase\<close>: A-Z and the Latin-1 capitals U+00C0..U+00DE
  (without the multiplication sign U+00D7) move up by 32; every other code unit stays.\<close>

definition toLowerChar :: "char \<Rightarrow> char" where
  "toLowerChar c = (let n = (of_char c :: nat) in
     if (65 \<le> n \<and> n \<le> 90) \<or> (192 \<le> n \<and> n \<le> 222 \<and> n \<noteq> 215)
     then char_of (n + 32) else c)"

definition toLowerCase :: "string \<Rightarrow> string" where
  "toLowerCase s = map toLowerChar s"

text \<open>\<^verbatim>\<open>Canonicalize\<close> of a regular expression with the flag \<^verbatim>\<open>i\<close> (and without
  \<^verbatim>\<open>u\<close>): a code unit is compared through its upper-case form, when that form is a single
  code unit. Within Latin-1 the letters a-z and U+00E0..U+00FE (without the division sign
  U+00F7) move down by 32; the upper-case forms of U+00B5, U+00DF and U+00FF are not a
  single Latin-1 code unit and equal the canonical form of no ASCII letter, so these stay.\<close>

definition canonicalize :: "char \<Rightarrow> char" where
  "canonicalize c = (let n = (of_char c :: nat) in
     if (97 \<le> n \<and> n \<le> 122) \<or> (224 \<le> n \<and> n \<le> 254 \<and> n \<noteq> 247)
     then char_of (n - 32) else c)"

text \<open>\<^verbatim>\<open>String.prototype.includes\<close>: the needle occurs at some position.\<close>

fun includes_js :: "'a list \<Rightarrow> 'a list \<Rightarrow> bool" where
  "includes_js [] needle = (needle = [])"
| "includes_js (x # xs) needle = (prefix needle (x # xs) \<or> includes_js xs needle)"

text \<open>The class \<^verbatim>\<open>\s\<close> of a regular expression, which is also what \<^verbatim>\<open>trim\<close> strips:
  tab, line feed, vertical tab, form feed, carriage return, space and the no-break space.\<close>

definition is_space :: "char \<Rightarrow> bool" where
  "is_space c = (c \<in> set [CHR 0x09, CHR 0x0A, CHR 0x0B, CHR 0x0C, CHR 0x0D, CHR 0x20, CHR 0xA0])"

text \<open>The class \<^verbatim>\<open>\d\<close>.\<close>

definition is_digit :: "char \<Rightarrow> bool" where
  "is_digit c = (c \<in> set ''0123456789'')"

definition trim :: "string \<Rightarrow> string" where
  "trim s = rev (dropWhile is_space (rev (dropWhile is_space s)))"

definition endsWith :: "string \<Rightarrow> string \<Rightarrow> bool" where
  "endsWith s suf = prefix (rev suf) (rev s)"

text \<open>\<^verbatim>\<open>parseInt(ds, 10)\<close> on a string of decimal digits, which is all that the group
  \<^verbatim>\<open>(\d+)\<close> can hold. JavaScript rounds a value beyond \<open>2^53\<close> to a double; the rounding is
  monotone, so it changes neither the comparison with 100 nor a \<^verbatim>\<open>slice\<close> of a ten-element
  array, the two places where the tools use the number.\<close>

definition digit_value :: "char \<Rightarrow> nat" where
  "digit_value c = of_char c - 48"

definition parseInt :: "string \<Rightarrow> nat" where
  "parseInt ds = foldl (\<lambda>n c. 10 * n + digit_value c) 0 ds"

subsection \<open>The regular expression \<^verbatim>\<open>limit\s+(\d+)\<close>\<close>

text \<open>
  \<open>limit_at ci s\<close> is the attempt to match at the start of \<open>s\<close>; \<open>ci\<close> is the flag
  \<^verbatim>\<open>i\<close>. Both quantifiers are greedy, and since no code unit is at once in \<^verbatim>\<open>\s\<close> and in
  \<^verbatim>\<open>\d\<close>, and none of either is a letter, giving characters back never finds another
  match: the attempt succeeds exactly when the keyword is followed by a non-empty maximal
  run of white space and then a non-empty maximal run of digits. The result is the length
  of the match and the text of group 1.
\<close>

definition limit_at :: "bool \<Rightarrow> string \<Rightarrow> (nat \<times> string) option" where
  "limit_at ci s =
     (let kw = take 5 s;
          ws = takeWhile is_space (drop 5 s);
          ds = takeWhile is_digit (dropWhile is_space (drop 5 s))
      in if (if ci then map canonicalize kw = map canonicalize ''limit'' else kw = ''limit'')
            \<and> ws \<noteq> [] \<and> ds \<noteq> []
         then Some (5 + length ws + length ds, ds) else None)"

text \<open>\<^verbatim>\<open>String.prototype.match\<close> without the flag \<^verbatim>\<open>g\<close>: the leftmost match, as the
  index where it starts, its length and group 1.\<close>

fun regex_limit :: "bool \<Rightarrow> string \<Rightarrow> (nat \<times> nat \<times> string) option" where
  "regex_limit ci [] = None"
| "regex_limit ci (c # cs) =
     (case limit_at ci (c # cs) of
        Some (len, ds) \<Rightarrow> Some (0, len, ds)
      | None \<Rightarrow> (case regex_limit ci cs of
                   Some (i, len, ds) \<Rightarrow> Some (Suc i, len, ds)
                 | None \<Rightarrow> None))"

section \<open>The sanitizer of the live tool\<close>

text \<open>
  Lines 40-47 of the handler of \<^verbatim>\<open>createQueryLogsTool\<close>
  (``Safety check: Ensure query has a LIMIT clause''):
  \<^verbatim>\<open>
  if (!query.toLowerCase().includes('limit')) {
    query = query.trim();
    if (query.endsWith(';')) { query = query.slice(0, -1); }
    query += ' LIMIT 50';
  }
  \<close>
\<close>

definition ensure_limit :: "string \<Rightarrow> string" where
  "ensure_limit query =
     (if \<not> includes_js (toLowerCase query) ''limit''
      then (let query = trim query;
                query = (if endsWith query '';'' then butlast query else query)
            in query @ '' LIMIT 50'')
      else query)"

text \<open>
  Lines 49-57 (``Safety check: Prevent queries with LIMIT > 100''):
  \<^verbatim>\<open>
  const limitMatch = query.match(/limit\s+(\d+)/i);
  if (limitMatch) {
    const limit = parseInt(limitMatch[1], 10);
    if (limit > 100) { query = query.replace(/limit\s+\d+/i, 'LIMIT 50'); }
  }
  \<close>
  \<^verbatim>\<open>replace\<close> with a regular expression without the flag \<^verbatim>\<open>g\<close> rewrites the leftmost
  match, which is the one \<^verbatim>\<open>match\<close> found.
\<close>

definition cap_limit :: "string \<Rightarrow> string" where
  "cap_limit query =
     (case regex_limit True query of
        Some (i, len, ds) \<Rightarrow>
          if 100 < parseInt ds then take i query @ ''LIMIT 50'' @ drop (i + len) query
          else query
      | None \<Rightarrow> query)"

definition sanitize :: "string \<Rightarrow> string" where
  "sanitize query = cap_limit (ensure_limit query)"

section \<open>Values thrown and values returned\<close>

text \<open>
  What a \<^verbatim>\<open>catch (error)\<close> clause can receive: an \<^verbatim>\<open>Error\<close> object with its message, or
  any other value. Both handlers read it with
  \<^verbatim>\<open>error instanceof Error ? error.message : 'Unknown error'\<close>.
\<close>

datatype thrown = ErrorObject string | OtherValue

definition errorMessage :: "thrown \<Rightarrow> string" where
  "errorMessage error = (case error of ErrorObject m \<Rightarrow> m | OtherValue \<Rightarrow> ''Unknown error'')"

text \<open>
  JSON values. \<open>JTime t\<close> is the JSON string that holds \<^verbatim>\<open>toISOString()\<close> of the instant
  \<open>t\<close>, in milliseconds since the epoch; the ISO form has millisecond precision, so
  \<^verbatim>\<open>new Date(s).getTime()\<close> reads \<open>t\<close> back.
\<close>

datatype json =
    JNull
  | JNum int
  | JStr string
  | JTime int
  | JArr "json list"
  | JObj "(string \<times> json) list"

text \<open>
  The string a handler returns: \<open>Stringify v n\<close> is the result of
  \<^verbatim>\<open>JSON.stringify(v, null, n)\<close> (\<open>n = 0\<close> when the call has no indentation argument), which
  is the text of one JSON document; \<open>Text s\<close> is a string built by a template literal.
\<close>

datatype tool_output = Stringify json nat | Text string

section \<open>The live tool: \<^verbatim>\<open>createQueryLogsTool\<close>\<close>

text \<open>
  The \<^verbatim>\<open>catch\<close> clause, lines 87-111. The first hint is written with \<^verbatim>\<open>->\<close> where the
  source has the arrow U+2192.
\<close>

definition live_catch :: "thrown \<Rightarrow> tool_output" where
  "live_catch error =
     (let errorMessage = errorMessage error in
      if includes_js errorMessage ''Not found: Table'' then
        Stringify (JObj
          [(''error'', JStr ''Log Analytics table not found. Please ensure Log Analytics is enabled and has data.''),
           (''hint'', JStr ''Go to Cloud Console -> Logging -> Log Storage -> Upgrade _Default bucket to Log Analytics''),
           (''details'', JStr errorMessage)]) 0
      else if includes_js errorMessage ''permission'' then
        Stringify (JObj
          [(''error'', JStr ''Permission denied. The service account needs BigQuery permissions.''),
           (''hint'', JStr ''Grant roles/bigquery.jobUser and roles/logging.viewer to the service account''),
           (''details'', JStr errorMessage)]) 0
      else
        Stringify (JObj
          [(''error'', JStr ''Error querying logs''),
           (''details'', JStr errorMessage)]) 0)"

text \<open>
  The handler. The analytical store is outside the program: \<open>bigquery\<close> stands for
  \<^verbatim>\<open>createQueryJob\<close> followed by \<^verbatim>\<open>getQueryResults\<close> on the submitted query text, and
  gives either the rows or the value that one of the two calls threw. The rows are JSON
  values, which \<^verbatim>\<open>JSON.stringify\<close> serialises; the sanitizer cannot throw.
\<close>

definition createQueryLogsTool :: "(string \<Rightarrow> thrown + json list) \<Rightarrow> string \<Rightarrow> tool_output" where
  "createQueryLogsTool bigquery query =
     (case bigquery (sanitize query) of
        Inl error \<Rightarrow> live_catch error
      | Inr rows \<Rightarrow>
          if length rows = 0 then
            Stringify (JObj
              [(''message'', JStr ''No logs found matching the query criteria.''),
               (''rowCount'', JNum 0),
               (''data'', JArr [])]) 0
          else
            Stringify (JObj
              [(''rowCount'', JNum (int (length rows))),
               (''data'', JArr rows)]) 2)"

section \<open>The mock tool: \<^verbatim>\<open>createQueryMockLogsTool\<close>\<close>

record log_entry =
  timestamp :: int
  severity :: string
  service :: string
  log_message :: string
  error_details :: "string option"
  trace_id :: string
  http_status :: "int option"

text \<open>
  The module constant \<^verbatim>\<open>mockLogs\<close>. Each entry reads the clock when the module is loaded:
  \<open>load k\<close> is the value of \<^verbatim>\<open>Date.now()\<close> in the entry with index \<open>k\<close>. Time is in
  milliseconds.
\<close>

definition mockLogs :: "(nat \<Rightarrow> int) \<Rightarrow> log_entry list" where
  "mockLogs load =
   [\<lparr>timestamp = load 0 - 5 * 60000, severity = ''ERROR'', service = ''payment-service'',
     log_message = ''Payment gateway timeout after 30s'',
     error_details = Some ''Connection timeout to payment-gateway.example.com'',
     trace_id = ''trace-abc123'', http_status = Some 504\<rparr>,
    \<lparr>timestamp = load 1 - 10 * 60000, severity = ''ERROR'', service = ''checkout-service'',
     log_message = ''Failed to process checkout request'',
     error_details = Some ''Database connection pool exhausted'',
     trace_id = ''trace-def456'', http_status = Some 500\<rparr>,
    \<lparr>timestamp = load 2 - 15 * 60000, severity = ''WARNING'', service = ''auth-service'',
     log_message = ''High latency detected on authentication endpoint'',
     error_details = Some ''Response time: 2500ms (threshold: 1000ms)'',
     trace_id = ''trace-ghi789'', http_status = Some 200\<rparr>,
    \<lparr>timestamp = load 3 - 20 * 60000, severity = ''ERROR'', service = ''payment-service'',
     log_message = ''Payment declined by processor'',
     error_details = Some ''Insufficient funds'',
     trace_id = ''trace-jkl012'', http_status = Some 402\<rparr>,
    \<lparr>timestamp = load 4 - 25 * 60000, severity = ''ERROR'', service = ''checkout-service'',
     log_message = ''Checkout validation failed'',
     error_details = Some ''Invalid shipping address format'',
     trace_id = ''trace-mno345'', http_status = Some 400\<rparr>,
    \<lparr>timestamp = load 5 - 30 * 60000, severity = ''ERROR'', service = ''api-gateway'',
     log_message = ''Rate limit exceeded'',
     error_details = Some ''Client exceeded 100 requests per minute'',
     trace_id = ''trace-pqr678'', http_status = Some 429\<rparr>,
    \<lparr>timestamp = load 6 - 35 * 60000, severity = ''WARNING'', service = ''database-proxy'',
     log_message = ''Slow query detected'',
     error_details = Some ''Query execution time: 5.2s'',
     trace_id = ''trace-stu901'', http_status = None\<rparr>,
    \<lparr>timestamp = load 7 - 40 * 60000, severity = ''ERROR'', service = ''payment-service'',
     log_message = ''Payment gateway connection refused'',
     error_details = Some ''ECONNREFUSED 10.0.1.5:8443'',
     trace_id = ''trace-vwx234'', http_status = Some 503\<rparr>,
    \<lparr>timestamp = load 8 - 45 * 60000, severity = ''INFO'', service = ''checkout-service'',
     log_message = ''Checkout completed successfully'',
     error_details = None,
     trace_id = ''trace-yza567'', http_status = Some 200\<rparr>,
    \<lparr>timestamp = load 9 - 50 * 60000, severity = ''ERROR'', service = ''auth-service'',
     log_message = ''JWT token validation failed'',
     error_details = Some ''Token expired at 2025-11-28T10:30:00Z'',
     trace_id = ''trace-bcd890'', http_status = Some 401\<rparr>]"

text \<open>The needle \<^verbatim>\<open>severity = 'error'\<close> and its sibling hold single quotes.\<close>

definition quoted :: "string \<Rightarrow> string" where
  "quoted s = CHR 0x27 # s @ [CHR 0x27]"

text \<open>
  The body of the \<^verbatim>\<open>try\<close>, lines 236-283, statement by statement; \<open>now\<close> is the value of
  \<^verbatim>\<open>Date.now()\<close> during the call. \<^verbatim>\<open>Array.prototype.sort\<close> is stable and the comparator
  is the difference of the two times, later first: a stable sort on the negated timestamp.
\<close>

definition mock_query :: "log_entry list \<Rightarrow> int \<Rightarrow> string \<Rightarrow> log_entry list" where
  "mock_query logs now query =
     (let filteredLogs = logs;
          queryLower = toLowerCase query;
          filteredLogs =
            (if includes_js queryLower (''severity = '' @ quoted ''error'') \<or> includes_js queryLower ''error''
             then filter (\<lambda>log. severity log = ''ERROR'') filteredLogs
             else if includes_js queryLower (''severity = '' @ quoted ''warning'') \<or> includes_js queryLower ''warning''
             then filter (\<lambda>log. severity log = ''WARNING'') filteredLogs
             else filteredLogs);
          filteredLogs =
            (if includes_js queryLower ''payment''
             then filter (\<lambda>log. includes_js (service log) ''payment'') filteredLogs
             else if includes_js queryLower ''checkout''
             then filter (\<lambda>log. includes_js (service log) ''checkout'') filteredLogs
             else if includes_js queryLower ''auth''
             then filter (\<lambda>log. includes_js (service log) ''auth'') filteredLogs
             else filteredLogs);
          filteredLogs =
            (if includes_js queryLower ''30 minute''
             then (let thirtyMinAgo = now - 30 * 60000
                   in filter (\<lambda>log. timestamp log > thirtyMinAgo) filteredLogs)
             else if includes_js queryLower ''1 hour''
             then (let oneHourAgo = now - 60 * 60000
                   in filter (\<lambda>log. timestamp log > oneHourAgo) filteredLogs)
             else filteredLogs);
          limit = (case regex_limit False queryLower of
                     Some (i, len, ds) \<Rightarrow> parseInt ds
                   | None \<Rightarrow> 50);
          filteredLogs = take limit filteredLogs;
          filteredLogs = sort_key (\<lambda>log. - timestamp log) filteredLogs
      in filteredLogs)"

text \<open>A log entry as \<^verbatim>\<open>JSON.stringify\<close> writes it, the keys in the order of the literal.\<close>

definition log_json :: "log_entry \<Rightarrow> json" where
  "log_json log =
     JObj [(''timestamp'', JTime (timestamp log)),
           (''severity'', JStr (severity log)),
           (''service'', JStr (service log)),
           (''log_message'', JStr (log_message log)),
           (''error_details'', (case error_details log of Some d \<Rightarrow> JStr d | None \<Rightarrow> JNull)),
           (''trace_id'', JStr (trace_id log)),
           (''http_status'', (case http_status log of Some n \<Rightarrow> JNum n | None \<Rightarrow> JNull))]"

text \<open>The \<^verbatim>\<open>catch\<close> clause, lines 288-292: a template literal, not a serialised object.\<close>

definition mock_catch :: "thrown \<Rightarrow> tool_output" where
  "mock_catch error = Text (''Error simulating log query: '' @ errorMessage error)"

text \<open>
  The \<^verbatim>\<open>try\<close> of the mock handler as a result: every statement of its body is a total
  operation on a string or on an array of the fixed entries, so the body has no
  \<open>Inl\<close> branch of its own; the handler is written with the \<^verbatim>\<open>catch\<close> it has.
\<close>

definition mock_try :: "(nat \<Rightarrow> int) \<Rightarrow> int \<Rightarrow> string \<Rightarrow> thrown + log_entry list" where
  "mock_try load now query = Inr (mock_query (mockLogs load) now query)"

definition createQueryMockLogsTool :: "(nat \<Rightarrow> int) \<Rightarrow> int \<Rightarrow> string \<Rightarrow> tool_output" where
  "createQueryMockLogsTool load now query =
     (case mock_try load now query of
        Inr filteredLogs \<Rightarrow> Stringify (JArr (map log_json filteredLogs)) 2
      | Inl error \<Rightarrow> mock_catch error)"

section \<open>Reading the results\<close>

text \<open>
  A row-limiting clause is what the sanitizer itself reads as one: a match of
  \<^verbatim>\<open>/limit\s+(\d+)/i\<close>. \<open>declared_cap\<close> is the number of the leftmost clause, the one that
  lines 50-52 read; it is \<open>None\<close> exactly when the query has no clause at all.
\<close>

definition declared_cap :: "string \<Rightarrow> nat option" where
  "declared_cap query =
     (case regex_limit True query of Some (i, len, ds) \<Rightarrow> Some (parseInt ds) | None \<Rightarrow> None)"

text \<open>The number of limiting clauses in a query: the positions where the expression matches.\<close>

definition count_clauses :: "string \<Rightarrow> nat" where
  "count_clauses query =
     length (filter (\<lambda>j. limit_at True (drop j query) \<noteq> None) [0..<length query])"

text \<open>
  \<^verbatim>\<open>JSON.parse\<close> of a returned string. A serialised value parses back to that value. The one
  template literal that either tool returns is
  \<^verbatim>\<open>`Error simulating log query: ${errorMessage}`\<close>; it starts with the letter E, which
  begins no JSON document, so it does not parse.
\<close>

fun parsed :: "tool_output \<Rightarrow> json option" where
  "parsed (Stringify v n) = Some v"
| "parsed (Text s) = None"

definition parses_as_json :: "tool_output \<Rightarrow> bool" where
  "parses_as_json out = (case parsed out of Some v \<Rightarrow> True | None \<Rightarrow> False)"

text \<open>A field of the returned document, when the document is an object.\<close>

definition field :: "string \<Rightarrow> tool_output \<Rightarrow> json option" where
  "field k out = (case parsed out of Some (JObj fs) \<Rightarrow> map_of fs k | _ \<Rightarrow> None)"

text \<open>The rows a returned document carries: the array under \<^verbatim>\<open>data\<close> of an object, or the
  document itself when it is an array.\<close>

definition rows_of :: "tool_output \<Rightarrow> json list option" where
  "rows_of out =
     (case parsed out of
        Some (JArr rs) \<Rightarrow> Some rs
      | Some (JObj fs) \<Rightarrow> (case map_of fs ''data'' of Some (JArr rs) \<Rightarrow> Some rs | _ \<Rightarrow> None)
      | _ \<Rightarrow> None)"

text \<open>
  The result envelope, with the keys the live tool writes (\<^verbatim>\<open>rowCount\<close>, \<^verbatim>\<open>data\<close>,
  \<^verbatim>\<open>message\<close>): an object with an integer row count equal to the number of rows, and a
  message when there are no rows.
\<close>

definition is_result_envelope :: "tool_output \<Rightarrow> bool" where
  "is_result_envelope out =
     (case (field ''rowCount'' out, field ''data'' out) of
        (Some (JNum c), Some (JArr rows)) \<Rightarrow>
           c = int (length rows) \<and>
           (if rows = [] then (case field ''message'' out of Some (JStr m) \<Rightarrow> True | _ \<Rightarrow> False)
            else True)
      | _ \<Rightarrow> False)"

text \<open>The error envelope, with the keys the live tool writes: a short classification under
  \<^verbatim>\<open>error\<close>, the raw message under \<^verbatim>\<open>details\<close>, and a hint where one is known.\<close>

definition is_error_envelope :: "tool_output \<Rightarrow> bool" where
  "is_error_envelope out =
     (case (field ''error'' out, field ''details'' out) of
        (Some (JStr e), Some (JStr d)) \<Rightarrow> True
      | _ \<Rightarrow> False)"

definition row_timestamp :: "json \<Rightarrow> int option" where
  "row_timestamp r =
     (case r of JObj fs \<Rightarrow> (case map_of fs ''timestamp'' of Some (JTime t) \<Rightarrow> Some t | _ \<Rightarrow> None)
              | _ \<Rightarrow> None)"

definition row_trace_id :: "json \<Rightarrow> string option" where
  "row_trace_id r =
     (case r of JObj fs \<Rightarrow> (case map_of fs ''trace_id'' of Some (JStr t) \<Rightarrow> Some t | _ \<Rightarrow> None)
              | _ \<Rightarrow> None)"

definition timestamps_of :: "tool_output \<Rightarrow> int list" where
  "timestamps_of out = (case rows_of out of Some rs \<Rightarrow> List.map_filter row_timestamp rs | None \<Rightarrow> [])"

definition trace_ids_of :: "tool_output \<Rightarrow> string list" where
  "trace_ids_of out = (case rows_of out of Some rs \<Rightarrow> List.map_filter row_trace_id rs | None \<Rightarrow> [])"

definition non_increasing :: "int list \<Rightarrow> bool" where
  "non_increasing ts = sorted_wrt (\<lambda>a b. a \<ge> b) ts"

text \<open>The caps of all limiting clauses of a query, in the order of their positions.\<close>

definition clause_caps :: "string \<Rightarrow> nat list" where
  "clause_caps query =
     List.map_filter
       (\<lambda>j. case limit_at True (drop j query) of Some (len, ds) \<Rightarrow> Some (parseInt ds) | None \<Rightarrow> None)
       [0..<length query]"

section \<open>The synthetic backend as the specification words it\<close>

text \<open>
  Section 4.3 of the specification, step by step, to be compared with \<open>mock_query\<close>: a
  severity filter, one origin filter chosen by the first name of a fixed ordered list that
  occurs in the query text, a recency filter, the row cap, and the sort.
\<close>

definition spec_severity_filter :: "string \<Rightarrow> log_entry list \<Rightarrow> log_entry list" where
  "spec_severity_filter text logs =
     (if includes_js text (''severity = '' @ quoted ''error'') \<or> includes_js text ''error''
      then filter (\<lambda>r. severity r = ''ERROR'') logs
      else if includes_js text (''severity = '' @ quoted ''warning'') \<or> includes_js text ''warning''
      then filter (\<lambda>r. severity r = ''WARNING'') logs
      else logs)"

definition spec_known_services :: "string list" where
  "spec_known_services = [''payment'', ''checkout'', ''auth'']"

definition spec_origin_filter :: "string \<Rightarrow> log_entry list \<Rightarrow> log_entry list" where
  "spec_origin_filter text logs =
     (case find (\<lambda>name. includes_js text name) spec_known_services of
        Some name \<Rightarrow> filter (\<lambda>r. includes_js (service r) name) logs
      | None \<Rightarrow> logs)"

definition spec_recency_filter :: "int \<Rightarrow> string \<Rightarrow> log_entry list \<Rightarrow> log_entry list" where
  "spec_recency_filter now text logs =
     (if includes_js text ''30 minute'' then filter (\<lambda>r. now - 30 * 60000 < timestamp r) logs
      else if includes_js text ''1 hour'' then filter (\<lambda>r. now - 60 * 60000 < timestamp r) logs
      else logs)"

definition spec_row_cap :: "string \<Rightarrow> nat" where
  "spec_row_cap text =
     (case regex_limit False text of Some (i, len, ds) \<Rightarrow> parseInt ds | None \<Rightarrow> 50)"

definition spec_synthetic :: "(nat \<Rightarrow> int) \<Rightarrow> int \<Rightarrow> string \<Rightarrow> log_entry list" where
  "spec_synthetic load now query =
     (let text = toLowerCase query
      in sort_key (\<lambda>r. - timestamp r)
           (take (spec_row_cap text)
             (spec_recency_filter now text
               (spec_origin_filter text
                 (spec_severity_filter text (mockLogs load))))))"

section \<open>Substrings and the case mappings\<close>

lemmas char_eval = char_of_def bit_Suc_0_iff

lemma includes_js_sublist: "includes_js s needle = sublist needle s"
  by (induction s) (simp_all add: sublist_Cons_right)

lemma includes_js_iff: "includes_js s needle \<longleftrightarrow> (\<exists>u v. s = u @ needle @ v)"
  by (simp add: includes_js_sublist sublist_def)

lemma canon_keyword: "map canonicalize ''limit'' = ''LIMIT''"
  by (simp add: canonicalize_def char_eval)

lemma canon_upper: "map canonicalize ''LIMIT'' = ''LIMIT''"
  by (simp add: canonicalize_def char_eval)

text \<open>A code unit that the flag \<^verbatim>\<open>i\<close> identifies with a letter of the keyword is that
  letter in one of its two cases; all 256 code units are checked.\<close>

lemma canon_to_lower:
  assumes "canonicalize c \<in> set ''LIMIT''"
  shows "toLowerChar c = toLowerChar (canonicalize c)"
proof (cases c)
  case (Char x1 x2 x3 x4 x5 x6 x7 x8)
  from assms show ?thesis unfolding Char
    by (cases x1; cases x2; cases x3; cases x4; cases x5; cases x6; cases x7; cases x8;
        simp add: canonicalize_def toLowerChar_def char_eval)
qed

lemma canon_L_class:
  assumes "canonicalize c = CHR ''L''"
  shows "\<not> is_space c \<and> \<not> is_digit c"
  using assms by (auto simp: is_space_def is_digit_def canonicalize_def char_eval)

lemma keyword_lower:
  assumes "map canonicalize kw = ''LIMIT''"
  shows "map toLowerChar kw = ''limit''"
proof -
  have "set (map canonicalize kw) = set ''LIMIT''" using assms by simp
  then have "\<forall>x\<in>set kw. canonicalize x \<in> set ''LIMIT''" by auto
  then have "map toLowerChar kw = map (\<lambda>x. toLowerChar (canonicalize x)) kw"
    using canon_to_lower by (intro map_cong) auto
  also have "\<dots> = map toLowerChar (map canonicalize kw)" by simp
  also have "\<dots> = ''limit''" unfolding assms by (simp add: toLowerChar_def char_eval)
  finally show ?thesis .
qed

lemma keyword_length:
  assumes "map canonicalize (take 5 s) = ''LIMIT''"
  shows "5 \<le> length s"
proof -
  from assms have "length (map canonicalize (take 5 s)) = length ''LIMIT''" by (rule arg_cong)
  then show ?thesis by simp
qed

lemma keyword_no_L:
  assumes "map canonicalize (take 5 s) = ''LIMIT''" "0 < k" "k < 5"
  shows "canonicalize (s ! k) \<noteq> CHR ''L''"
proof -
  from keyword_length [OF assms(1)] assms(3)
  have "canonicalize (s ! k) = map canonicalize (take 5 s) ! k" by simp
  then have eq: "canonicalize (s ! k) = ''LIMIT'' ! k" unfolding assms(1) .
  from assms(2,3) have "k = 1 \<or> k = 2 \<or> k = 3 \<or> k = 4" by arith
  then have "''LIMIT'' ! k \<noteq> CHR ''L''" by (elim disjE) simp_all
  with eq show ?thesis by simp
qed

section \<open>The leftmost match\<close>

lemma limit_at_Nil: "limit_at ci [] = None"
  by (simp add: limit_at_def)

lemma regex_limit_SomeD:
  "regex_limit ci q = Some (i, len, ds) \<Longrightarrow>
     limit_at ci (drop i q) = Some (len, ds) \<and> (\<forall>j<i. limit_at ci (drop j q) = None)"
proof (induction q arbitrary: i)
  case Nil
  then show ?case by simp
next
  case (Cons c cs)
  show ?case
  proof (cases "limit_at ci (c # cs)")
    case None
    with Cons.prems obtain k where k: "regex_limit ci cs = Some (k, len, ds)" "i = Suc k"
      by (auto split: option.splits)
    from Cons.IH [OF k(1)] have ih: "limit_at ci (drop k cs) = Some (len, ds)"
      "\<forall>j<k. limit_at ci (drop j cs) = None" by simp_all
    have "limit_at ci (drop j (c # cs)) = None" if "j < i" for j
      using that None ih(2) k(2) by (cases j) simp_all
    with ih(1) k(2) show ?thesis by simp
  next
    case (Some r)
    with Cons.prems show ?thesis by (auto split: prod.splits)
  qed
qed

lemma regex_limit_SomeI:
  "limit_at ci (drop i q) = Some (len, ds) \<Longrightarrow> (\<forall>j<i. limit_at ci (drop j q) = None) \<Longrightarrow>
     regex_limit ci q = Some (i, len, ds)"
proof (induction q arbitrary: i)
  case Nil
  then show ?case by (simp add: limit_at_Nil)
next
  case (Cons c cs)
  show ?case
  proof (cases i)
    case 0
    with Cons.prems show ?thesis by simp
  next
    case (Suc k)
    from Cons.prems(2) Suc have "limit_at ci (drop 0 (c # cs)) = None" by blast
    then have none: "limit_at ci (c # cs) = None" by simp
    have "limit_at ci (drop j cs) = None" if "j < k" for j
    proof -
      from that Suc have "Suc j < i" by simp
      with Cons.prems(2) have "limit_at ci (drop (Suc j) (c # cs)) = None" by blast
      then show ?thesis by simp
    qed
    moreover from Cons.prems(1) Suc have "limit_at ci (drop k cs) = Some (len, ds)" by simp
    ultimately have "regex_limit ci cs = Some (k, len, ds)" using Cons.IH by blast
    with none Suc show ?thesis by simp
  qed
qed


lemma limit_at_SomeD:
  assumes "limit_at True s = Some (len, ds)"
  shows "map canonicalize (take 5 s) = ''LIMIT''"
    and "ds \<noteq> []"
    and "len = 5 + length (takeWhile is_space (drop 5 s)) + length ds"
    and "ds = takeWhile is_digit (dropWhile is_space (drop 5 s))"
    and "drop len s = dropWhile is_digit (dropWhile is_space (drop 5 s))"
proof -
  from assms have "map canonicalize (take 5 s) = map canonicalize ''limit''"
    by (simp add: limit_at_def Let_def split: if_splits)
  then show kw: "map canonicalize (take 5 s) = ''LIMIT''"
    by (simp only: canon_keyword)
  from assms show "ds \<noteq> []" by (auto simp: limit_at_def Let_def split: if_splits)
  from assms show len: "len = 5 + length (takeWhile is_space (drop 5 s)) + length ds"
    by (auto simp: limit_at_def Let_def split: if_splits)
  from assms show ds: "ds = takeWhile is_digit (dropWhile is_space (drop 5 s))"
    by (auto simp: limit_at_def Let_def split: if_splits)
  have "drop len s = drop (length ds) (drop (length (takeWhile is_space (drop 5 s))) (drop 5 s))"
    unfolding len by (simp add: add.commute add.left_commute)
  also have "\<dots> = drop (length ds) (dropWhile is_space (drop 5 s))"
    by (simp add: dropWhile_eq_drop)
  also have "\<dots> = dropWhile is_digit (dropWhile is_space (drop 5 s))"
    unfolding ds by (simp add: dropWhile_eq_drop)
  finally show "drop len s = dropWhile is_digit (dropWhile is_space (drop 5 s))" .
qed

lemma regex_includes:
  assumes "regex_limit True q = Some (i, len, ds)"
  shows "includes_js (toLowerCase q) ''limit''"
proof -
  from regex_limit_SomeD [OF assms] have "limit_at True (drop i q) = Some (len, ds)" by simp
  from keyword_lower [OF limit_at_SomeD(1) [OF this]]
  have kw: "map toLowerChar (take 5 (drop i q)) = ''limit''" .
  have "q = take i q @ take 5 (drop i q) @ drop 5 (drop i q)"
    by (simp only: append_take_drop_id)
  then have "toLowerCase q =
      toLowerCase (take i q) @ map toLowerChar (take 5 (drop i q)) @ toLowerCase (drop 5 (drop i q))"
    unfolding toLowerCase_def by (metis map_append)
  with kw show ?thesis unfolding includes_js_iff by metis
qed


lemma runs_stop:
  assumes "\<not> is_space x" "\<not> is_digit x" "\<not> is_space y" "\<not> is_digit y"
  shows "takeWhile is_space (a @ x # b) = takeWhile is_space (a @ y # c)"
    and "takeWhile is_digit (dropWhile is_space (a @ x # b)) =
         takeWhile is_digit (dropWhile is_space (a @ y # c))"
  using assms by (simp_all add: takeWhile_append dropWhile_append)

lemma limit_at_local:
  assumes "5 \<le> length a" "\<not> is_space x" "\<not> is_digit x" "\<not> is_space y" "\<not> is_digit y"
  shows "limit_at ci (a @ x # b) = limit_at ci (a @ y # c)"
proof -
  from assms(1) have d: "drop 5 (a @ x # b) = drop 5 a @ x # b" "drop 5 (a @ y # c) = drop 5 a @ y # c"
    and t: "take 5 (a @ x # b) = take 5 a" "take 5 (a @ y # c) = take 5 a"
    by simp_all
  show ?thesis
    unfolding limit_at_def d t
    using runs_stop [OF assms(2-5), of "drop 5 a" b c] by simp
qed

lemma limit_at_replacement:
  assumes "r = [] \<or> \<not> is_digit (hd r)"
  shows "limit_at True (''LIMIT 50'' @ r) = Some (8, ''50'')"
proof -
  from assms have r: "takeWhile is_digit r = []" by (cases r) auto
  have t: "take 5 (''LIMIT 50'' @ r) = ''LIMIT''"
    and d: "drop 5 (''LIMIT 50'' @ r) = '' 50'' @ r" by simp_all
  have s: "is_space CHR '' ''" "\<not> is_space CHR ''5''" "is_digit CHR ''5''" "is_digit CHR ''0''"
    by (simp_all add: is_space_def is_digit_def)
  have w: "takeWhile is_space ('' 50'' @ r) = '' ''" using s by simp
  have g: "takeWhile is_digit (dropWhile is_space ('' 50'' @ r)) = ''50''" using s r by simp
  show ?thesis unfolding limit_at_def t d w g Let_def canon_upper canon_keyword by simp
qed

lemma replace_first_match:
  assumes m: "regex_limit True q = Some (i, len, ds)"
  shows "regex_limit True (take i q @ ''LIMIT 50'' @ drop (i + len) q) = Some (i, 8, ''50'')"
proof -
  let ?q' = "take i q @ ''LIMIT 50'' @ drop (i + len) q"
  from regex_limit_SomeD [OF m] have at: "limit_at True (drop i q) = Some (len, ds)"
    and before: "\<forall>j<i. limit_at True (drop j q) = None" by simp_all
  note kw = limit_at_SomeD(1) [OF at]
  from keyword_length [OF kw] have i: "i + 5 \<le> length q" by simp
  have x: "canonicalize (q ! i) = CHR ''L''"
  proof -
    from i have "canonicalize (q ! i) = map canonicalize (take 5 (drop i q)) ! 0" by simp
    then show ?thesis unfolding kw by simp
  qed
  have L: "canonicalize CHR ''L'' = CHR ''L''" by (simp add: canonicalize_def char_eval)
  have rest: "drop (i + len) q = [] \<or> \<not> is_digit (hd (drop (i + len) q))"
  proof -
    have "drop (i + len) q = drop len (drop i q)" by (simp add: add.commute)
    also have "\<dots> = dropWhile is_digit (dropWhile is_space (drop 5 (drop i q)))"
      by (rule limit_at_SomeD(5) [OF at])
    finally have "drop (i + len) q = dropWhile is_digit (dropWhile is_space (drop 5 (drop i q)))" .
    then show ?thesis by (metis hd_dropWhile)
  qed
  have here: "limit_at True (drop i ?q') = Some (8, ''50'')"
  proof -
    from i have "drop i ?q' = ''LIMIT 50'' @ drop (i + len) q" by simp
    with limit_at_replacement [OF rest] show ?thesis by simp
  qed
  have earlier: "limit_at True (drop j ?q') = None" if j: "j < i" for j
  proof -
    let ?a = "drop j (take i q)"
    from i j have la: "length ?a = i - j" by simp
    have old: "drop j q = ?a @ q ! i # drop (Suc i) q"
    proof -
      from i have "q = take i q @ q ! i # drop (Suc i) q" by (simp add: id_take_nth_drop)
      then have "drop j q = drop j (take i q @ q ! i # drop (Suc i) q)" by simp
      also from i j have "\<dots> = ?a @ q ! i # drop (Suc i) q" by simp
      finally show ?thesis .
    qed
    from i j have new: "drop j ?q' = ?a @ CHR ''L'' # (''IMIT 50'' @ drop (i + len) q)" by simp
    show ?thesis
    proof (cases "5 \<le> i - j")
      case True
      with la have "5 \<le> length ?a" by simp
      from limit_at_local [OF this, of "CHR ''L''" "q ! i"] canon_L_class [OF x] canon_L_class [OF L]
      have "limit_at True (drop j ?q') = limit_at True (drop j q)" unfolding old new by blast
      with before j show ?thesis by simp
    next
      case False
      show ?thesis
      proof (rule ccontr)
        assume "limit_at True (drop j ?q') \<noteq> None"
        then obtain l d where "limit_at True (drop j ?q') = Some (l, d)" by auto
        note k = limit_at_SomeD(1) [OF this]
        from False j have "0 < i - j" "i - j < 5" by simp_all
        from keyword_no_L [OF k this] have "canonicalize (drop j ?q' ! (i - j)) \<noteq> CHR ''L''" .
        moreover from la have "drop j ?q' ! (i - j) = CHR ''L''"
          unfolding new by (simp add: nth_append)
        ultimately show False using L by simp
      qed
    qed
  qed
  from regex_limit_SomeI [OF here] earlier show ?thesis by blast
qed

section \<open>The sanitizer\<close>

lemmas eval_defs = sanitize_def ensure_limit_def cap_limit_def declared_cap_def toLowerCase_def
  toLowerChar_def limit_at_def canonicalize_def is_space_def is_digit_def parseInt_def
  digit_value_def trim_def endsWith_def char_eval

lemma parseInt_50: "parseInt ''50'' = 50"
  by (simp add: parseInt_def digit_value_def)

lemma trim_sublist: "\<exists>a b. q = a @ trim q @ b"
proof -
  let ?r = "dropWhile is_space q"
  have "trim q @ rev (takeWhile is_space (rev ?r)) =
        rev (takeWhile is_space (rev ?r) @ dropWhile is_space (rev ?r))"
    by (simp only: trim_def rev_append)
  also have "\<dots> = rev (rev ?r)" by (simp only: takeWhile_dropWhile_id)
  also have "\<dots> = ?r" by simp
  finally have "?r = trim q @ rev (takeWhile is_space (rev ?r))" by (rule sym)
  moreover have "q = takeWhile is_space q @ ?r" by simp
  ultimately have "q = takeWhile is_space q @ trim q @ rev (takeWhile is_space (rev ?r))"
    by metis
  then show ?thesis by blast
qed

lemma strip_prefix:
  "\<exists>c. t = (if endsWith t '';'' then butlast t else t) @ c"
proof (cases "endsWith t '';''")
  case True
  then have "t \<noteq> []" by (auto simp: endsWith_def)
  then have "t = butlast t @ [last t]" by simp
  with True show ?thesis by (metis (full_types))
next
  case False
  then show ?thesis by simp
qed

lemma no_limit_inside:
  assumes "\<not> includes_js (toLowerCase (a @ p @ b)) ''limit''"
  shows "\<not> includes_js (toLowerCase p) ''limit''"
proof
  assume "includes_js (toLowerCase p) ''limit''"
  then obtain u v where "toLowerCase p = u @ ''limit'' @ v" unfolding includes_js_iff by blast
  then have "toLowerCase (a @ p @ b) = (toLowerCase a @ u) @ ''limit'' @ (v @ toLowerCase b)"
    by (simp add: toLowerCase_def)
  then have "includes_js (toLowerCase (a @ p @ b)) ''limit''" unfolding includes_js_iff by blast
  with assms show False by simp
qed

lemma count_single:
  assumes "k < n"
  shows "length (filter (\<lambda>j. j = k) [0..<n]) = 1"
proof -
  have "filter (\<lambda>j. j = k) [0..<n] = [k]" using assms
  proof (induction n)
    case 0 then show ?case by simp
  next
    case (Suc n)
    show ?case
    proof (cases "k = n")
      case True
      have "filter (\<lambda>j. j = n) [0..<n] = []" by (simp add: filter_empty_conv)
      with True show ?thesis by simp
    next
      case False
      with Suc show ?thesis by simp
    qed
  qed
  then show ?thesis by simp
qed

lemma keyword_nth:
  assumes "map canonicalize (take 5 s) = ''LIMIT''" "k < 5"
  shows "canonicalize (s ! k) = ''LIMIT'' ! k"
proof -
  from keyword_length [OF assms(1)] assms(2)
  have "canonicalize (s ! k) = map canonicalize (take 5 s) ! k" by simp
  then show ?thesis unfolding assms(1) .
qed

lemma appended_clause_only:
  assumes p: "\<not> includes_js (toLowerCase p) ''limit''" and j: "j < length (p @ '' LIMIT 50'')"
    and n: "j \<noteq> Suc (length p)"
  shows "limit_at True (drop j (p @ '' LIMIT 50'')) = None"
proof (cases "j \<le> length p")
  case True
  have "limit_at True (drop j (p @ '' LIMIT 50'')) = None"
  proof (rule ccontr)
    assume "limit_at True (drop j (p @ '' LIMIT 50'')) \<noteq> None"
    then obtain l d where "limit_at True (drop j (p @ '' LIMIT 50'')) = Some (l, d)" by auto
    note kw = limit_at_SomeD(1) [OF this]
    show False
    proof (cases "j + 5 \<le> length p")
      case True
      then have eq: "take 5 (drop j (p @ '' LIMIT 50'')) = take 5 (drop j p)" by simp
      from keyword_lower [OF kw] have low: "map toLowerChar (take 5 (drop j p)) = ''limit''"
        unfolding eq .
      have "p = take j p @ take 5 (drop j p) @ drop 5 (drop j p)"
        by (simp only: append_take_drop_id)
      then have "toLowerCase p = toLowerCase (take j p) @ map toLowerChar (take 5 (drop j p))
          @ toLowerCase (drop 5 (drop j p))"
        unfolding toLowerCase_def by (metis map_append)
      with low have "includes_js (toLowerCase p) ''limit''" unfolding includes_js_iff by metis
      with p show False by simp
    next
      case False
      let ?k = "length p - j"
      from False \<open>j \<le> length p\<close> have k: "?k < 5" by simp
      from \<open>j \<le> length p\<close> have "drop j (p @ '' LIMIT 50'') ! ?k = CHR '' ''"
        by (simp add: nth_append)
      moreover note keyword_nth [OF kw k]
      ultimately have "canonicalize CHR '' '' = ''LIMIT'' ! ?k" by simp
      moreover have "canonicalize CHR '' '' = CHR '' ''" by (simp add: canonicalize_def)
      moreover from k have "?k = 0 \<or> ?k = 1 \<or> ?k = 2 \<or> ?k = 3 \<or> ?k = 4" by arith
      then have "''LIMIT'' ! ?k \<noteq> CHR '' ''" by (elim disjE) simp_all
      ultimately show False by simp
    qed
  qed
  then show ?thesis .
next
  case False
  then obtain m where m: "j = length p + m" "0 < m" by (metis not_le less_imp_add_positive add.commute)
  with j n have "1 < m" "m < 9" by simp_all
  then have "m = 2 \<or> m = 3 \<or> m = 4 \<or> m = 5 \<or> m = 6 \<or> m = 7 \<or> m = 8" by arith
  moreover have d: "drop j (p @ '' LIMIT 50'') = drop m '' LIMIT 50''" using m by simp
  have "limit_at True (drop m '' LIMIT 50'') = None"
    if "m = 2 \<or> m = 3 \<or> m = 4 \<or> m = 5 \<or> m = 6 \<or> m = 7 \<or> m = 8"
    using that
    by (elim disjE) (simp_all add: limit_at_def canonicalize_def is_space_def is_digit_def char_eval)
  ultimately show ?thesis unfolding d by simp
qed


text \<open>
  The append rule where it applies. A query that does not hold the five letters at all is
  trimmed, loses one final semicolon, and receives \<^verbatim>\<open> LIMIT 50\<close>; the result has exactly one
  limiting clause, and its cap is 50.
\<close>

lemma append_rule_adds_one_clause:
  assumes "\<not> includes_js (toLowerCase query) ''limit''"
  shows "sanitize query =
           (if endsWith (trim query) '';'' then butlast (trim query) else trim query) @ '' LIMIT 50''"
    and "declared_cap (sanitize query) = Some 50"
    and "count_clauses (sanitize query) = 1"
proof -
  define p where "p = (if endsWith (trim query) '';'' then butlast (trim query) else trim query)"
  let ?s = "p @ '' LIMIT 50''"
  from assms have e: "ensure_limit query = ?s" by (simp add: ensure_limit_def Let_def p_def)
  obtain a b where "query = a @ trim query @ b" using trim_sublist by blast
  moreover obtain c where "trim query = p @ c" using strip_prefix unfolding p_def by blast
  ultimately have "query = a @ p @ (c @ b)" by (metis append.assoc)
  with assms have "\<not> includes_js (toLowerCase (a @ p @ (c @ b))) ''limit''" by simp
  then have p: "\<not> includes_js (toLowerCase p) ''limit''" by (rule no_limit_inside)
  note only = appended_clause_only [OF p]
  have "drop (Suc (length p)) ?s = ''LIMIT 50'' @ []" by simp
  with limit_at_replacement [of "[]"]
  have here: "limit_at True (drop (Suc (length p)) ?s) = Some (8, ''50'')" by simp
  have "\<forall>j<Suc (length p). limit_at True (drop j ?s) = None"
  proof (intro allI impI)
    fix j assume j: "j < Suc (length p)"
    then have "j < length ?s" "j \<noteq> Suc (length p)" by simp_all
    then show "limit_at True (drop j ?s) = None" by (rule only)
  qed
  with here have m: "regex_limit True ?s = Some (Suc (length p), 8, ''50'')"
    by (rule regex_limit_SomeI)
  then have c: "cap_limit ?s = ?s" by (simp add: cap_limit_def parseInt_50)
  with e have s: "sanitize query = ?s" by (simp add: sanitize_def)
  then show "sanitize query =
      (if endsWith (trim query) '';'' then butlast (trim query) else trim query) @ '' LIMIT 50''"
    unfolding p_def .
  from m show "declared_cap (sanitize query) = Some 50"
    unfolding s by (simp add: declared_cap_def parseInt_50)
  have "filter (\<lambda>j. limit_at True (drop j ?s) \<noteq> None) [0..<length ?s] =
        filter (\<lambda>j. j = Suc (length p)) [0..<length ?s]"
  proof (rule filter_cong [OF refl])
    fix j assume "j \<in> set [0..<length ?s]"
    then have j: "j < length ?s" by (simp only: set_upt atLeastLessThan_iff)
    show "(limit_at True (drop j ?s) \<noteq> None) = (j = Suc (length p))"
    proof (cases "j = Suc (length p)")
      case True
      with here show ?thesis by simp
    next
      case False
      with only [OF j False] show ?thesis by simp
    qed
  qed
  moreover have "Suc (length p) < length ?s" by simp
  ultimately show "count_clauses (sanitize query) = 1"
    unfolding s count_clauses_def by (simp only: count_single)
qed

text \<open>
  Claim C5, evaluated where it fails. The query \<^verbatim>\<open>SELECT rate_limit FROM logs\<close> has no
  row-limiting clause: the word occurs only inside a column name. The test of line 40 finds
  the substring, so nothing is appended, and the sanitizer returns the query as it came,
  still without a limiting clause, where the claim asks for exactly one clause capping at 50.
  The comment on that test reads ``Ensure query has a LIMIT clause''.
\<close>

theorem sanitize_leaves_query_without_clause:
  "declared_cap ''SELECT rate_limit FROM logs'' = None \<and>
   sanitize ''SELECT rate_limit FROM logs'' = ''SELECT rate_limit FROM logs'' \<and>
   declared_cap (sanitize ''SELECT rate_limit FROM logs'') = None"
  by (simp add: eval_defs)

text \<open>
  The cap rule on the clause it reads. When the leftmost limiting clause of a query declares
  the cap \<open>n\<close>: for \<open>n\<close> above 100 the clause is rewritten in place and the leftmost clause of
  the output declares 50; for \<open>n\<close> of at most 100 the output is the query itself.
\<close>

lemma cap_rule_on_leftmost_clause:
  assumes "declared_cap query = Some n"
  shows "(100 < n \<longrightarrow> declared_cap (sanitize query) = Some 50) \<and>
         (n \<le> 100 \<longrightarrow> sanitize query = query \<and> declared_cap (sanitize query) = Some n)"
proof -
  from assms obtain i len ds where m: "regex_limit True query = Some (i, len, ds)"
    and n: "n = parseInt ds"
    by (auto simp: declared_cap_def split: option.splits)
  from regex_includes [OF m] have e: "ensure_limit query = query"
    by (simp add: ensure_limit_def)
  show ?thesis
  proof (intro conjI impI)
    assume "100 < n"
    with m n e have "sanitize query = take i query @ ''LIMIT 50'' @ drop (i + len) query"
      by (simp add: sanitize_def cap_limit_def)
    with replace_first_match [OF m] show "declared_cap (sanitize query) = Some 50"
      by (simp add: declared_cap_def parseInt_50)
  next
    assume "n \<le> 100"
    with m n e show s: "sanitize query = query" by (simp add: sanitize_def cap_limit_def)
    from assms show "declared_cap (sanitize query) = Some n" unfolding s .
  qed
qed

text \<open>
  Claim C6, evaluated where it fails. The query
  \<^verbatim>\<open>SELECT * FROM (SELECT * FROM t LIMIT 10) LIMIT 1000\<close> contains a limiting clause with the
  cap 1000. Lines 50-55 read the leftmost match only, find 10, and leave the query as it
  came: the clause with the cap 1000 is still in the output, where the claim asks for a cap
  of 50. The comment on that rule reads ``Prevent queries with LIMIT > 100''.
\<close>

theorem sanitize_keeps_later_clause:
  "clause_caps ''SELECT * FROM (SELECT * FROM t LIMIT 10) LIMIT 1000'' = [10, 1000] \<and>
   sanitize ''SELECT * FROM (SELECT * FROM t LIMIT 10) LIMIT 1000'' =
     ''SELECT * FROM (SELECT * FROM t LIMIT 10) LIMIT 1000'' \<and>
   clause_caps (sanitize ''SELECT * FROM (SELECT * FROM t LIMIT 10) LIMIT 1000'') = [10, 1000]"
  by code_simp

text \<open>
  Claim C10. The test of line 40 is a bare substring test on the lower-cased query: the
  append rule leaves a query unchanged exactly when the five letters of \<^verbatim>\<open>limit\<close> occur in it
  in some mix of cases. Hence whenever they occur, with any text \<open>u\<close> before and \<open>v\<close> after
  them (so also inside a longer word or an identifier), nothing is appended; and when such a
  query has no limiting clause, the whole sanitizer returns it unchanged, still without one.
\<close>

theorem limit_substring_skips_append:
  "(ensure_limit query = query \<longleftrightarrow> includes_js (toLowerCase query) ''limit'') \<and>
   (toLowerCase w = ''limit'' \<longrightarrow>
      ensure_limit (u @ w @ v) = u @ w @ v \<and>
      (declared_cap (u @ w @ v) = None \<longrightarrow> sanitize (u @ w @ v) = u @ w @ v))"
proof (intro conjI impI iffI)
  assume same: "ensure_limit query = query"
  show "includes_js (toLowerCase query) ''limit''"
  proof (rule ccontr)
    assume no: "\<not> includes_js (toLowerCase query) ''limit''"
    define p where "p = (if endsWith (trim query) '';'' then butlast (trim query) else trim query)"
    from no same have "query = p @ '' LIMIT 50''" by (simp add: ensure_limit_def Let_def p_def)
    then have "toLowerCase query = toLowerCase p @ toLowerCase '' LIMIT 50''"
      by (simp add: toLowerCase_def)
    also have "toLowerCase '' LIMIT 50'' = '' '' @ ''limit'' @ '' 50''"
      by (simp add: toLowerCase_def toLowerChar_def char_eval)
    finally have "toLowerCase query = (toLowerCase p @ '' '') @ ''limit'' @ '' 50''" by simp
    then have "includes_js (toLowerCase query) ''limit''" unfolding includes_js_iff by blast
    with no show False by simp
  qed
next
  assume "includes_js (toLowerCase query) ''limit''"
  then show "ensure_limit query = query" by (simp add: ensure_limit_def)
next
  assume w: "toLowerCase w = ''limit''"
  have "toLowerCase (u @ w @ v) = toLowerCase u @ ''limit'' @ toLowerCase v"
    using w by (simp add: toLowerCase_def)
  then have "includes_js (toLowerCase (u @ w @ v)) ''limit''"
    unfolding includes_js_iff by blast
  then show e: "ensure_limit (u @ w @ v) = u @ w @ v" by (simp add: ensure_limit_def)
  assume "declared_cap (u @ w @ v) = None"
  with e show "sanitize (u @ w @ v) = u @ w @ v"
    by (auto simp: sanitize_def cap_limit_def declared_cap_def split: option.splits)
qed

theorem limit_substring_skips_append_witness:
  "toLowerCase ''Limit'' = ''limit'' \<and>
   ensure_limit ''SELECT rate_Limit FROM logs'' = ''SELECT rate_Limit FROM logs'' \<and>
   declared_cap ''SELECT rate_Limit FROM logs'' = None \<and>
   sanitize ''SELECT rate_Limit FROM logs'' = ''SELECT rate_Limit FROM logs''"
proof -
  have w: "toLowerCase ''Limit'' = ''limit''" by (simp add: toLowerCase_def toLowerChar_def char_eval)
  have n: "declared_cap (''SELECT rate_'' @ ''Limit'' @ '' FROM logs'') = None"
    by (simp add: eval_defs)
  from limit_substring_skips_append [of _ "''Limit''" "''SELECT rate_''" "'' FROM logs''"] n w
  show ?thesis by simp
qed

section \<open>Reading what the tools return\<close>

lemmas read_defs = parses_as_json_def field_def rows_of_def is_result_envelope_def
  is_error_envelope_def timestamps_of_def trace_ids_of_def row_timestamp_def row_trace_id_def
  non_increasing_def List.map_filter_simps

lemma parsed_mock:
  "parsed (createQueryMockLogsTool load now query) =
     Some (JArr (map log_json (mock_query (mockLogs load) now query)))"
  by (simp add: createQueryMockLogsTool_def mock_try_def)

lemma row_timestamp_log: "row_timestamp (log_json r) = Some (timestamp r)"
  by (simp add: row_timestamp_def log_json_def)

lemma row_trace_id_log: "row_trace_id (log_json r) = Some (trace_id r)"
  by (simp add: row_trace_id_def log_json_def)

lemma map_filter_total:
  assumes "\<And>x. f (g x) = Some (h x)"
  shows "List.map_filter f (map g xs) = map h xs"
  using assms by (induction xs) (simp_all add: List.map_filter_simps)

lemma timestamps_of_mock:
  "timestamps_of (createQueryMockLogsTool load now query) =
     map timestamp (mock_query (mockLogs load) now query)"
  using map_filter_total [of row_timestamp log_json timestamp, OF row_timestamp_log]
  by (simp add: timestamps_of_def rows_of_def parsed_mock)

lemma trace_ids_of_mock:
  "trace_ids_of (createQueryMockLogsTool load now query) =
     map trace_id (mock_query (mockLogs load) now query)"
  using map_filter_total [of row_trace_id log_json trace_id, OF row_trace_id_log]
  by (simp add: trace_ids_of_def rows_of_def parsed_mock)

lemma sort_newest_first:
  "non_increasing (map timestamp (sort_key (\<lambda>r. - timestamp r) xs))"
  using sorted_sort_key [of "\<lambda>r. - timestamp r" xs]
  by (simp add: non_increasing_def sorted_wrt_map)

lemma mock_query_sorted:
  "non_increasing (map timestamp (mock_query logs now query))"
  unfolding mock_query_def Let_def by (rule sort_newest_first)

lemma live_success:
  assumes "bigquery (sanitize query) = Inr rows"
  shows "parsed (createQueryLogsTool bigquery query) =
     Some (if rows = []
           then JObj [(''message'', JStr ''No logs found matching the query criteria.''),
                      (''rowCount'', JNum 0), (''data'', JArr [])]
           else JObj [(''rowCount'', JNum (int (length rows))), (''data'', JArr rows)])"
  using assms by (simp add: createQueryLogsTool_def)

lemma live_failure:
  assumes "bigquery (sanitize query) = Inl error"
  shows "createQueryLogsTool bigquery query = live_catch error"
  using assms by (simp add: createQueryLogsTool_def)

lemma live_catch_envelope: "is_error_envelope (live_catch error)"
  by (simp add: live_catch_def Let_def is_error_envelope_def field_def)

lemma live_catch_parses: "parses_as_json (live_catch error)"
  by (simp add: live_catch_def Let_def parses_as_json_def)

section \<open>The synthetic backend\<close>

lemma spec_origin_filter_chain:
  "spec_origin_filter text logs =
     (if includes_js text ''payment'' then filter (\<lambda>r. includes_js (service r) ''payment'') logs
      else if includes_js text ''checkout'' then filter (\<lambda>r. includes_js (service r) ''checkout'') logs
      else if includes_js text ''auth'' then filter (\<lambda>r. includes_js (service r) ''auth'') logs
      else logs)"
  by (simp add: spec_origin_filter_def spec_known_services_def)

text \<open>
  Claim C3. For every query, every reading of the clock at load time and every time of the
  call, the mock tool returns the serialised array of the records that the specification's
  procedure selects: the severity filter, then one origin filter chosen by the first of
  \<^verbatim>\<open>payment\<close>, \<^verbatim>\<open>checkout\<close>, \<^verbatim>\<open>auth\<close> that occurs in the query text, then the recency
  filter, then the truncation to the row cap (the number of the limiting clause, 50 without
  one), then the sort by timestamp, latest first.
\<close>

theorem mock_query_follows_spec:
  "createQueryMockLogsTool load now query =
     Stringify (JArr (map log_json (spec_synthetic load now query))) 2"
proof -
  have "mock_query (mockLogs load) now query = spec_synthetic load now query"
    unfolding mock_query_def spec_synthetic_def spec_severity_filter_def spec_origin_filter_chain
      spec_recency_filter_def spec_row_cap_def Let_def
    by (rule refl)
  then show ?thesis by (simp add: createQueryMockLogsTool_def mock_try_def)
qed

text \<open>
  The live tool does not sort: a store that answers in ascending order gives an ascending
  result, against claim C4 as it is stated.
\<close>

theorem live_rows_in_store_order_counterexample:
  "\<not> non_increasing (timestamps_of (createQueryLogsTool
      (\<lambda>q. Inr [JObj [(''timestamp'', JTime 1000)], JObj [(''timestamp'', JTime 2000)]])
      ''SELECT timestamp FROM logs ORDER BY timestamp ASC LIMIT 2''))"
  by (simp add: createQueryLogsTool_def read_defs)

text \<open>
  Claim C4, amended. The rows of the mock tool are in non-increasing order of timestamp for
  every query; the rows of the live tool are the rows of the store, in the order the store
  returned them.
\<close>

theorem mock_sorted_live_store_order:
  "non_increasing (timestamps_of (createQueryMockLogsTool load now query)) \<and>
   (bigquery (sanitize query) = Inr rows \<longrightarrow>
      rows_of (createQueryLogsTool bigquery query) = Some rows)"
proof (intro conjI impI)
  show "non_increasing (timestamps_of (createQueryMockLogsTool load now query))"
    unfolding timestamps_of_mock by (rule mock_query_sorted)
next
  assume "bigquery (sanitize query) = Inr rows"
  from live_success [of bigquery query rows, OF this] show "rows_of (createQueryLogsTool bigquery query) = Some rows"
    by (simp add: rows_of_def)
qed

theorem mock_sorted_live_store_order_witness:
  "non_increasing (timestamps_of (createQueryMockLogsTool (\<lambda>k. 0) 0 ''errors'')) \<and>
   rows_of (createQueryLogsTool (\<lambda>q. Inr [JNum 2, JNum 1]) ''errors'') = Some [JNum 2, JNum 1]"
  using mock_sorted_live_store_order [of "\<lambda>k. 0" 0 "''errors''" "\<lambda>q. Inr [JNum 2, JNum 1]" "[JNum 2, JNum 1]"]
  by simp

text \<open>
  The mock tool returns an array, not an envelope: the document has no row count, against
  claim C2 as it is stated.
\<close>

theorem mock_returns_bare_array_counterexample:
  "\<not> is_result_envelope (createQueryMockLogsTool (\<lambda>k. 0) 0 ''SELECT * FROM logs LIMIT 5'') \<and>
   field ''rowCount'' (createQueryMockLogsTool (\<lambda>k. 0) 0 ''SELECT * FROM logs LIMIT 5'') = None"
  by (simp add: is_result_envelope_def field_def parsed_mock)

text \<open>
  Claim C2, amended. A successful call of the live tool returns a result envelope whose row
  count is the number of rows and whose rows are those of the store, with a message when
  there are none; a call of the mock tool returns the bare array of the selected records.
\<close>

theorem live_envelope_mock_array:
  "(bigquery (sanitize query) = Inr rows \<longrightarrow>
      is_result_envelope (createQueryLogsTool bigquery query) \<and>
      field ''rowCount'' (createQueryLogsTool bigquery query) = Some (JNum (int (length rows))) \<and>
      field ''data'' (createQueryLogsTool bigquery query) = Some (JArr rows)) \<and>
   parsed (createQueryMockLogsTool load now query) =
      Some (JArr (map log_json (mock_query (mockLogs load) now query)))"
proof (intro conjI impI)
  assume a: "bigquery (sanitize query) = Inr rows"
  from live_success [of bigquery query rows, OF a] show "is_result_envelope (createQueryLogsTool bigquery query)"
    by (simp add: is_result_envelope_def field_def)
  from live_success [of bigquery query rows, OF a]
  show "field ''rowCount'' (createQueryLogsTool bigquery query) = Some (JNum (int (length rows)))"
    by (simp add: field_def)
  from live_success [of bigquery query rows, OF a]
  show "field ''data'' (createQueryLogsTool bigquery query) = Some (JArr rows)"
    by (simp add: field_def)
next
  show "parsed (createQueryMockLogsTool load now query) =
      Some (JArr (map log_json (mock_query (mockLogs load) now query)))"
    by (rule parsed_mock)
qed

theorem live_envelope_mock_array_witness:
  "is_result_envelope (createQueryLogsTool (\<lambda>q. Inr []) ''SELECT 1'') \<and>
   field ''rowCount'' (createQueryLogsTool (\<lambda>q. Inr []) ''SELECT 1'') = Some (JNum 0) \<and>
   is_result_envelope (createQueryLogsTool (\<lambda>q. Inr [JNull, JNull]) ''SELECT 1'') \<and>
   field ''rowCount'' (createQueryLogsTool (\<lambda>q. Inr [JNull, JNull]) ''SELECT 1'') = Some (JNum 2)"
  using live_envelope_mock_array [of "\<lambda>q. Inr []" "''SELECT 1''" "[]"]
    live_envelope_mock_array [of "\<lambda>q. Inr [JNull, JNull]" "''SELECT 1''" "[JNull, JNull]"]
  by simp

section \<open>Failures\<close>

text \<open>
  Claim C8. A failing call of the live tool is reported in exactly one of three forms, chosen
  by the message of the failure in this order: a message holding \<^verbatim>\<open>Not found: Table\<close> gives
  the table-not-found error with the hint to upgrade the log bucket to Log Analytics;
  otherwise a message holding \<^verbatim>\<open>permission\<close> gives the permission error with the hint that
  names the roles \<^verbatim>\<open>roles/bigquery.jobUser\<close> and \<^verbatim>\<open>roles/logging.viewer\<close>; any other gives
  the generic error without a hint. All three carry the raw message under \<^verbatim>\<open>details\<close>.
\<close>

theorem live_failure_classified:
  assumes "bigquery (sanitize query) = Inl error"
  shows "field ''details'' (createQueryLogsTool bigquery query) = Some (JStr (errorMessage error)) \<and>
    (includes_js (errorMessage error) ''Not found: Table'' \<longrightarrow>
       field ''error'' (createQueryLogsTool bigquery query) =
         Some (JStr ''Log Analytics table not found. Please ensure Log Analytics is enabled and has data.'') \<and>
       field ''hint'' (createQueryLogsTool bigquery query) =
         Some (JStr ''Go to Cloud Console -> Logging -> Log Storage -> Upgrade _Default bucket to Log Analytics'')) \<and>
    (\<not> includes_js (errorMessage error) ''Not found: Table'' \<and>
     includes_js (errorMessage error) ''permission'' \<longrightarrow>
       field ''error'' (createQueryLogsTool bigquery query) =
         Some (JStr ''Permission denied. The service account needs BigQuery permissions.'') \<and>
       field ''hint'' (createQueryLogsTool bigquery query) =
         Some (JStr ''Grant roles/bigquery.jobUser and roles/logging.viewer to the service account'')) \<and>
    (\<not> includes_js (errorMessage error) ''Not found: Table'' \<and>
     \<not> includes_js (errorMessage error) ''permission'' \<longrightarrow>
       field ''error'' (createQueryLogsTool bigquery query) = Some (JStr ''Error querying logs'') \<and>
       field ''hint'' (createQueryLogsTool bigquery query) = None)"
  unfolding live_failure [of bigquery query error, OF assms]
  by (simp add: live_catch_def Let_def field_def)

theorem live_failure_classified_witness:
  "field ''hint'' (createQueryLogsTool
      (\<lambda>q. Inl (ErrorObject ''Not found: Table p.global._Default._AllLogs was not found in location US''))
      ''SELECT 1 LIMIT 1'') =
     Some (JStr ''Go to Cloud Console -> Logging -> Log Storage -> Upgrade _Default bucket to Log Analytics'') \<and>
   field ''hint'' (createQueryLogsTool
      (\<lambda>q. Inl (ErrorObject ''Access Denied: User does not have bigquery.jobs.create permission''))
      ''SELECT 1 LIMIT 1'') =
     Some (JStr ''Grant roles/bigquery.jobUser and roles/logging.viewer to the service account'') \<and>
   field ''error'' (createQueryLogsTool (\<lambda>q. Inl OtherValue) ''SELECT 1 LIMIT 1'') =
     Some (JStr ''Error querying logs'') \<and>
   field ''details'' (createQueryLogsTool (\<lambda>q. Inl OtherValue) ''SELECT 1 LIMIT 1'') =
     Some (JStr ''Unknown error'')"
proof -
  let ?m = "ErrorObject ''Not found: Table p.global._Default._AllLogs was not found in location US''"
  let ?p = "ErrorObject ''Access Denied: User does not have bigquery.jobs.create permission''"
  have m: "includes_js (errorMessage ?m) ''Not found: Table''"
    by (simp add: errorMessage_def)
  have p: "\<not> includes_js (errorMessage ?p) ''Not found: Table''" "includes_js (errorMessage ?p) ''permission''"
    by (simp_all add: errorMessage_def)
  have g: "\<not> includes_js (errorMessage OtherValue) ''Not found: Table''"
    "\<not> includes_js (errorMessage OtherValue) ''permission''" "errorMessage OtherValue = ''Unknown error''"
    by (simp_all add: errorMessage_def)
  from live_failure_classified [of "\<lambda>q. Inl ?m" "''SELECT 1 LIMIT 1''" ?m]
    live_failure_classified [of "\<lambda>q. Inl ?p" "''SELECT 1 LIMIT 1''" ?p]
    live_failure_classified [of "\<lambda>q. Inl OtherValue" "''SELECT 1 LIMIT 1''" OtherValue]
    m p g
  show ?thesis by simp
qed

text \<open>
  Claim C1. For every query and both backends the tool returns a string and never raises.
  The live tool always returns one JSON document, and an error envelope whenever the store
  fails. The mock tool returns one JSON document for every query; its result is never the
  sentence that its \<^verbatim>\<open>catch\<close> clause would build, a clause that no query reaches.
\<close>

theorem tools_return_documents:
  "parses_as_json (createQueryLogsTool bigquery query) \<and>
   (bigquery (sanitize query) = Inl error \<longrightarrow> is_error_envelope (createQueryLogsTool bigquery query)) \<and>
   parses_as_json (createQueryMockLogsTool load now query) \<and>
   createQueryMockLogsTool load now query \<noteq> mock_catch error"
proof (intro conjI impI)
  show "parses_as_json (createQueryLogsTool bigquery query)"
  proof (cases "bigquery (sanitize query)")
    case (Inl e)
    from live_failure [of bigquery query e, OF Inl] live_catch_parses show ?thesis by simp
  next
    case (Inr rows)
    from live_success [of bigquery query rows, OF Inr] show ?thesis by (simp add: parses_as_json_def)
  qed
next
  assume "bigquery (sanitize query) = Inl error"
  from live_failure [of bigquery query error, OF this] live_catch_envelope
  show "is_error_envelope (createQueryLogsTool bigquery query)" by simp
next
  show "parses_as_json (createQueryMockLogsTool load now query)"
    by (simp add: parses_as_json_def parsed_mock)
next
  show "createQueryMockLogsTool load now query \<noteq> mock_catch error"
    by (simp add: createQueryMockLogsTool_def mock_try_def mock_catch_def)
qed

theorem tools_return_documents_witness:
  "parses_as_json (createQueryLogsTool (\<lambda>q. Inl (ErrorObject ''quota exceeded'')) ''SELECT 1'') \<and>
   is_error_envelope (createQueryLogsTool (\<lambda>q. Inl (ErrorObject ''quota exceeded'')) ''SELECT 1'') \<and>
   parses_as_json (createQueryMockLogsTool (\<lambda>k. 0) 0 ''SELECT 1'')"
  using tools_return_documents [of "\<lambda>q. Inl (ErrorObject ''quota exceeded'')" "''SELECT 1''"
      "ErrorObject ''quota exceeded''" "\<lambda>k. 0" 0]
  by simp







section \<open>Two calls with the same query\<close>

lemma recency_at_load:
  "map trace_id (mock_query (mockLogs (\<lambda>k. 0)) 0 ''last 30 minutes'') =
     [''trace-abc123'', ''trace-def456'', ''trace-ghi789'', ''trace-jkl012'', ''trace-mno345'']"
  by code_simp

lemma recency_ten_minutes_later:
  "map trace_id (mock_query (mockLogs (\<lambda>k. 0)) 600000 ''last 30 minutes'') =
     [''trace-abc123'', ''trace-def456'', ''trace-ghi789'']"
  by code_simp

text \<open>
  The timestamps of the records are fixed when the module is loaded and the recency filter
  reads the clock at each call: ten minutes after a first call with
  \<^verbatim>\<open>last 30 minutes\<close>, the record \<^verbatim>\<open>trace-jkl012\<close> is no longer matched, against claim C9 as
  it is stated.
\<close>

theorem recency_depends_on_clock_counterexample:
  "''trace-jkl012'' \<in> set (trace_ids_of (createQueryMockLogsTool (\<lambda>k. 0) 0 ''last 30 minutes'')) \<and>
   ''trace-jkl012'' \<notin> set (trace_ids_of (createQueryMockLogsTool (\<lambda>k. 0) 600000 ''last 30 minutes''))"
  unfolding trace_ids_of_mock recency_at_load recency_ten_minutes_later by simp

text \<open>
  Claim C9, amended. Two calls of the mock tool with the same query, at any two times,
  return the same string, and so the same trace identifiers, when the query text signals
  no recency window (neither \<^verbatim>\<open>30 minute\<close> nor \<^verbatim>\<open>1 hour\<close>).
\<close>

theorem mock_stable_without_recency:
  assumes "\<not> includes_js (toLowerCase query) ''30 minute''"
    and "\<not> includes_js (toLowerCase query) ''1 hour''"
  shows "createQueryMockLogsTool load now1 query = createQueryMockLogsTool load now2 query"
  unfolding createQueryMockLogsTool_def mock_try_def mock_query_def Let_def
  using assms by (simp only: if_False)

theorem mock_stable_without_recency_witness:
  "\<not> includes_js (toLowerCase ''payment errors'') ''30 minute'' \<and>
   \<not> includes_js (toLowerCase ''payment errors'') ''1 hour'' \<and>
   createQueryMockLogsTool (\<lambda>k. 0) 0 ''payment errors'' =
   createQueryMockLogsTool (\<lambda>k. 0) 600000 ''payment errors''"
proof -
  have a: "\<not> includes_js (toLowerCase ''payment errors'') ''30 minute''"
    and b: "\<not> includes_js (toLowerCase ''payment errors'') ''1 hour''"
    by (simp_all add: toLowerCase_def toLowerChar_def char_eval)
  from mock_stable_without_recency [OF a b, of "\<lambda>k. 0" 0 600000] a b show ?thesis by simp
qed

end
